theory Spec2Isabelle
  imports Main "HOL-Library.Word"
begin

section \<open>Values of the gateway\<close>

text \<open>
  The gateway of \<^verbatim>\<open>tangogateway.py\<close> relays GIOP frames between a Tango client and the
  Tango database and rewrites the IOR of a Reply so that it names a listener of its own.
  Octet strings (\<^verbatim>\<open>bytes\<close>) are lists of 8-bit words, a Python \<^verbatim>\<open>str\<close> is the list of its
  code points, and a raised exception is the left injection of a sum.
\<close>

type_synonym byte = "8 word"
type_synonym bytes = "byte list"
type_synonym pystr = "nat list"

datatype error =
    MalformedHeader
  | MalformedReply
  | TruncatedFrame
  | StructError
  | TypeError
  | KeyError
  | UnicodeDecodeError
  | UnicodeEncodeError
  | OSError
  | ConnectionResetError

text \<open>
  The fields \<^verbatim>\<open>host\<close> and \<^verbatim>\<open>port\<close> of an IOR tuple are dynamically typed: the codec
  puts an octet string and an integer there, \<^verbatim>\<open>_replace\<close> stores whatever it is given.
\<close>

datatype pyval = PInt int | PBytes bytes

subsection \<open>\<^verbatim>\<open>bytes.decode()\<close> and \<^verbatim>\<open>str.encode()\<close>: strict UTF-8\<close>

definition cont :: "byte \<Rightarrow> bool" where
  "cont c = (0x80 \<le> unat c \<and> unat c \<le> 0xBF)"

definition between :: "nat \<Rightarrow> byte \<Rightarrow> nat \<Rightarrow> bool" where
  "between lo c hi = (lo \<le> unat c \<and> unat c \<le> hi)"

definition low6 :: "byte \<Rightarrow> nat" where
  "low6 c = unat c - 0x80"

definition cons_cp :: "nat \<Rightarrow> error + pystr \<Rightarrow> error + pystr" where
  "cons_cp cp r = (case r of Inl e \<Rightarrow> Inl e | Inr s \<Rightarrow> Inr (cp # s))"

fun decode :: "bytes \<Rightarrow> error + pystr" where
  "decode [] = Inr []"
| "decode (b # bs) =
    (let n = unat b in
     if n < 0x80 then cons_cp n (decode bs)
     else if 0xC2 \<le> n \<and> n \<le> 0xDF then
       (case bs of
          c1 # r \<Rightarrow>
            if cont c1 then cons_cp ((n - 0xC0) * 64 + low6 c1) (decode r)
            else Inl UnicodeDecodeError
        | _ \<Rightarrow> Inl UnicodeDecodeError)
     else if 0xE0 \<le> n \<and> n \<le> 0xEF then
       (case bs of
          c1 # c2 # r \<Rightarrow>
            if between (if n = 0xE0 then 0xA0 else 0x80) c1 (if n = 0xED then 0x9F else 0xBF)
               \<and> cont c2
            then cons_cp ((n - 0xE0) * 4096 + low6 c1 * 64 + low6 c2) (decode r)
            else Inl UnicodeDecodeError
        | _ \<Rightarrow> Inl UnicodeDecodeError)
     else if 0xF0 \<le> n \<and> n \<le> 0xF4 then
       (case bs of
          c1 # c2 # c3 # r \<Rightarrow>
            if between (if n = 0xF0 then 0x90 else 0x80) c1 (if n = 0xF4 then 0x8F else 0xBF)
               \<and> cont c2 \<and> cont c3
            then cons_cp ((n - 0xF0) * 262144 + low6 c1 * 4096 + low6 c2 * 64 + low6 c3)
                   (decode r)
            else Inl UnicodeDecodeError
        | _ \<Rightarrow> Inl UnicodeDecodeError)
     else Inl UnicodeDecodeError)"

definition encode_cp :: "nat \<Rightarrow> bytes option" where
  "encode_cp cp =
    (if cp < 0x80 then Some [of_nat cp]
     else if cp < 0x800 then Some [of_nat (0xC0 + cp div 64), of_nat (0x80 + cp mod 64)]
     else if 0xD800 \<le> cp \<and> cp \<le> 0xDFFF then None
     else if cp < 0x10000 then
       Some [of_nat (0xE0 + cp div 4096), of_nat (0x80 + cp div 64 mod 64),
             of_nat (0x80 + cp mod 64)]
     else if cp < 0x110000 then
       Some [of_nat (0xF0 + cp div 262144), of_nat (0x80 + cp div 4096 mod 64),
             of_nat (0x80 + cp div 64 mod 64), of_nat (0x80 + cp mod 64)]
     else None)"

fun encode :: "pystr \<Rightarrow> error + bytes" where
  "encode [] = Inr []"
| "encode (cp # s) =
    (case encode_cp cp of
       None \<Rightarrow> Inl UnicodeEncodeError
     | Some bs \<Rightarrow> (case encode s of Inl e \<Rightarrow> Inl e | Inr r \<Rightarrow> Inr (bs @ r)))"

section \<open>The asyncio streams\<close>

text \<open>
  A \<^verbatim>\<open>StreamReader\<close> is the octets its peer still sends (\<open>pending\<close>), how the stream
  ends (an end of file, or a connection error raised by the next read) and whether the
  end of file has been fed to the reader already. \<open>avail\<close> is the arrival pattern: its
  head is the number of octets that are buffered when the next read is served (at least
  one, since a read waits for data); when it is empty everything pending is buffered.
  A connection that stays open and silent for ever lets no read return; such streams are
  not represented.
\<close>

datatype stream_end = Eof | Reset

record reader =
  pending :: bytes
  avail :: "nat list"
  ending :: stream_end
  eof_fed :: bool

definition at_eof :: "reader \<Rightarrow> bool" where
  "at_eof rd = (pending rd = [] \<and> ending rd = Eof \<and> eof_fed rd)"

text \<open>\<^verbatim>\<open>reader.read(n)\<close>: at most \<open>n\<close> octets, as many as are buffered; empty at the end
  of file, and at once when \<open>n = 0\<close>.\<close>

definition buffered :: "reader \<Rightarrow> nat" where
  "buffered rd =
    (case avail rd of
       [] \<Rightarrow> length (pending rd)
     | a # _ \<Rightarrow> max 1 (min a (length (pending rd))))"

definition read :: "nat \<Rightarrow> reader \<Rightarrow> (error + bytes) \<times> reader" where
  "read n rd =
    (if pending rd = [] \<and> ending rd = Reset then (Inl ConnectionResetError, rd)
     else if n = 0 then (Inr [], rd)
     else if pending rd = [] then (Inr [], rd\<lparr>eof_fed := True\<rparr>)
     else
       let k = min n (buffered rd)
       in (Inr (take k (pending rd)),
           rd\<lparr>pending := drop k (pending rd), avail := tl (avail rd)\<rparr>))"

record writer =
  written :: bytes
  closed :: bool

definition write_data :: "bytes \<Rightarrow> writer \<Rightarrow> writer" where
  "write_data data w = w\<lparr>written := written w @ data\<rparr>"

definition close :: "writer \<Rightarrow> writer" where
  "close w = w\<lparr>closed := True\<rparr>"

section \<open>Listeners\<close>

text \<open>
  \<^verbatim>\<open>asyncio.start_server(handler, host, port)\<close> asks the operating system for a listening
  socket. Its answers are the environment's: \<open>script\<close> lists them in the order of the
  calls, a refusal (the call raises \<^verbatim>\<open>OSError\<close>) or the socket's \<^verbatim>\<open>getsockname()\<close>. An
  exhausted script refuses. \<open>servers\<close> are the listeners created so far. The handler of
  a dynamic listener is \<^verbatim>\<open>partial(forward, host=host, port=port)\<close>, kept as its two
  arguments: \<^verbatim>\<open>forward\<close> opens its connection to them.
\<close>

record server =
  handler_host :: pystr
  handler_port :: pyval
  listen_host :: pystr
  listen_port :: nat
  sock_host :: pystr
  sock_port :: nat

datatype bind_result = Refused | Bound pystr nat

record os_env =
  script :: "bind_result list"
  servers :: "server list"

definition start_server ::
  "pystr \<times> pyval \<Rightarrow> pystr \<Rightarrow> nat \<Rightarrow> os_env \<Rightarrow> (error + server) \<times> os_env" where
  "start_server handler h p os =
    (case script os of
       [] \<Rightarrow> (Inl OSError, os)
     | Refused # rest \<Rightarrow> (Inl OSError, os\<lparr>script := rest\<rparr>)
     | Bound a q # rest \<Rightarrow>
         let srv = \<lparr>handler_host = fst handler, handler_port = snd handler,
                    listen_host = h, listen_port = p, sock_host = a, sock_port = q\<rparr>
         in (Inr srv, os\<lparr>script := rest, servers := servers os @ [srv]\<rparr>))"


section \<open>The codec interface\<close>

text \<open>
  \<^verbatim>\<open>tangogateway.py\<close> imports its codec, \<^verbatim>\<open>import giop\<close>, and the module is not among the
  sources. The frame reader is therefore modelled over an arbitrary codec: a record of
  the five functions it calls, each of which may raise. The tuples the codec hands over
  are modelled from the spec.
\<close>

text \<open>Modelled from the spec: the header tuple of the \<^verbatim>\<open>giop\<close> module, the fields of the
  12-octet GIOP header after its magic. \<open>size_h\<close> is the field \<^verbatim>\<open>size\<close>, an unbounded
  Python integer once \<^verbatim>\<open>_replace\<close> has set it.\<close>

record giop_header =
  major :: byte
  minor :: byte
  flags :: byte
  message_type :: byte
  size_h :: nat

text \<open>Modelled from the spec: the reply header tuple of the \<^verbatim>\<open>giop\<close> module.\<close>

record reply_header =
  service_context :: "(nat \<times> bytes) list"
  request_id :: nat
  reply_status :: nat

text \<open>Modelled from the spec: the IOR tuple of the \<^verbatim>\<open>giop\<close> module, the fields of an IIOP
  profile. The gateway reads and replaces \<open>host\<close> and \<open>port\<close> only.\<close>

record ior =
  byte_order :: byte
  iiop_major :: byte
  iiop_minor :: byte
  host :: pyval
  port :: pyval
  object_key :: bytes

text \<open>Modelled from the spec: the enumerations \<^verbatim>\<open>giop.MessageType\<close> and
  \<^verbatim>\<open>giop.ReplyStatus\<close>, by their wire values.\<close>

definition MessageType_Request :: byte where "MessageType_Request = 0"
definition MessageType_Reply :: byte where "MessageType_Reply = 1"
definition ReplyStatus_NoException :: nat where "ReplyStatus_NoException = 0"
definition ReplyStatus_UserException :: nat where "ReplyStatus_UserException = 1"

record giop_module =
  unpack_giop_header :: "bytes \<Rightarrow> error + giop_header"
  unpack_reply_header :: "bytes \<Rightarrow> error + reply_header"
  find_ior :: "bytes \<Rightarrow> error + (ior \<times> nat \<times> nat) option"
  repack_ior :: "bytes \<Rightarrow> ior \<Rightarrow> nat \<Rightarrow> nat \<Rightarrow> error + bytes"
  pack_giop :: "giop_header \<Rightarrow> bytes \<Rightarrow> error + bytes"

section \<open>The event loop and the frame reader\<close>

text \<open>
  \<^verbatim>\<open>run_server\<close> hangs the gateway's state off the event loop: the bind address and
  \<^verbatim>\<open>forward_dict\<close>, which maps a backend \<^verbatim>\<open>(host, port)\<close> to the tuple built at lines
  68 to 71, \<^verbatim>\<open>(server, getsockname()[1], getsockname()[0].encode() + b'\x00')\<close>.
\<close>

type_synonym key = "pystr \<times> pyval"
type_synonym fwd_value = "server \<times> nat \<times> bytes"

record loop =
  bind_address :: pystr
  server_port :: nat
  forward_dict :: "key \<rightharpoonup> fwd_value"

definition run_server_loop :: "pystr \<Rightarrow> nat \<Rightarrow> loop" where
  "run_server_loop b p = \<lparr>bind_address = b, server_port = p, forward_dict = Map.empty\<rparr>"

text \<open>
  \<^verbatim>\<open>read_frame\<close>, lines 39 to 81, in the blocks its comments name. Three places of the
  source are read as follows. Line 49 tests \<^verbatim>\<open>message_type\<close> and line 54
  \<^verbatim>\<open>reply_header.reply_status\<close>, names the module never binds: they are read as
  \<^verbatim>\<open>header.message_type\<close> and as the tuple line 53 binds to \<^verbatim>\<open>repy_header\<close>. The tuple
  of lines 68 to 71 lacks the comma after \<^verbatim>\<open>server\<close>; it is read as the three-tuple.
  The \<^verbatim>\<open>print\<close> of line 73 is left out.
\<close>

text \<open>Lines 61 and 62: \<^verbatim>\<open>host = ior.host[:-1].decode()\<close>, \<^verbatim>\<open>key = host, ior.port\<close>.\<close>

definition ior_key :: "ior \<Rightarrow> error + key" where
  "ior_key i =
    (case host i of
       PInt _ \<Rightarrow> Inl TypeError
     | PBytes hb \<Rightarrow>
         (case decode (butlast hb) of
            Inl e \<Rightarrow> Inl e
          | Inr h \<Rightarrow> Inr (h, port i)))"

text \<open>Lines 64 to 73, \<^verbatim>\<open># Start port forwarding\<close>.\<close>

definition start_port_forwarding ::
  "key \<Rightarrow> loop \<Rightarrow> os_env \<Rightarrow> error option \<times> loop \<times> os_env" where
  "start_port_forwarding k lp os =
    (if forward_dict lp k \<noteq> None then (None, lp, os)
     else
       (case start_server (fst k, snd k) (bind_address lp) 0 os of
          (Inl e, os') \<Rightarrow> (Some e, lp, os')
        | (Inr srv, os') \<Rightarrow>
            (case encode (sock_host srv) of
               Inl e \<Rightarrow> (Some e, lp, os')
             | Inr hb \<Rightarrow>
                 (None,
                  lp\<lparr>forward_dict := (forward_dict lp)(k \<mapsto> (srv, sock_port srv, hb @ [0]))\<rparr>,
                  os'))))"

text \<open>Lines 75 and 76, \<^verbatim>\<open># Patch IOR\<close>: \<^verbatim>\<open>server, host, port = loop.forward_dict[key]\<close>
  names the second component \<^verbatim>\<open>host\<close> and the third \<^verbatim>\<open>port\<close>, and
  \<^verbatim>\<open>ior._replace(host=host, port=port)\<close> stores them so.\<close>

definition patch_ior :: "fwd_value \<Rightarrow> ior \<Rightarrow> ior" where
  "patch_ior v i =
    (case v of (srv, host_v, port_v) \<Rightarrow> i\<lparr>host := PInt (int host_v), port := PBytes port_v\<rparr>)"

text \<open>Lines 78 to 81, \<^verbatim>\<open># Repack body\<close>.\<close>

definition repack_body ::
  "giop_module \<Rightarrow> giop_header \<Rightarrow> bytes \<Rightarrow> bytes \<Rightarrow> ior \<Rightarrow> nat \<Rightarrow> nat \<Rightarrow> error + bytes" where
  "repack_body g header raw_reply_header raw_body i start stop =
    (case repack_ior g raw_body i start stop of
       Inl e \<Rightarrow> Inl e
     | Inr raw_body' \<Rightarrow>
         let raw_data = raw_reply_header @ raw_body';
             header' = header\<lparr>size_h := length raw_data\<rparr>
         in pack_giop g header' raw_body')"

text \<open>Lines 60 to 81: what \<^verbatim>\<open>read_frame\<close> does once \<^verbatim>\<open>find_ior\<close> has found an IOR.\<close>

definition rewrite_ior ::
  "giop_module \<Rightarrow> loop \<Rightarrow> os_env \<Rightarrow> giop_header \<Rightarrow> bytes \<Rightarrow> bytes \<Rightarrow> ior \<Rightarrow> nat \<Rightarrow> nat
    \<Rightarrow> (error + bytes) \<times> loop \<times> os_env" where
  "rewrite_ior g lp os header raw_reply_header raw_body i start stop =
    (case ior_key i of
       Inl e \<Rightarrow> (Inl e, lp, os)
     | Inr k \<Rightarrow>
         (case start_port_forwarding k lp os of
            (Some e, lp', os') \<Rightarrow> (Inl e, lp', os')
          | (None, lp', os') \<Rightarrow>
              (case forward_dict lp' k of
                 None \<Rightarrow> (Inl KeyError, lp', os')
               | Some v \<Rightarrow>
                   (repack_body g header raw_reply_header raw_body (patch_ior v i) start stop,
                    lp', os'))))"

text \<open>Lines 48 to 59: the frame as read, and the three tests that forward it as it is.\<close>

definition inspect_frame ::
  "giop_module \<Rightarrow> loop \<Rightarrow> os_env \<Rightarrow> bytes \<Rightarrow> giop_header \<Rightarrow> bytes
    \<Rightarrow> (error + bytes) \<times> loop \<times> os_env" where
  "inspect_frame g lp os raw_header header raw_data =
    (let raw_frame = raw_header @ raw_data in
     if message_type header \<noteq> MessageType_Reply then (Inr raw_frame, lp, os)
     else
       let raw_reply_header = take 12 raw_data; raw_body = drop 12 raw_data in
       (case unpack_reply_header g raw_reply_header of
          Inl e \<Rightarrow> (Inl e, lp, os)
        | Inr repy_header \<Rightarrow>
            if reply_status repy_header \<noteq> ReplyStatus_NoException then (Inr raw_frame, lp, os)
            else
              (case find_ior g raw_body of
                 Inl e \<Rightarrow> (Inl e, lp, os)
               | Inr None \<Rightarrow> (Inr raw_frame, lp, os)
               | Inr (Some (i, start, stop)) \<Rightarrow>
                   rewrite_ior g lp os header raw_reply_header raw_body i start stop)))"

text \<open>Lines 39 to 47: the two reads.\<close>

definition read_frame ::
  "giop_module \<Rightarrow> loop \<Rightarrow> os_env \<Rightarrow> reader \<Rightarrow> (error + bytes) \<times> loop \<times> os_env \<times> reader" where
  "read_frame g lp os rd =
    (case read 12 rd of
       (Inl e, rd1) \<Rightarrow> (Inl e, lp, os, rd1)
     | (Inr raw_header, rd1) \<Rightarrow>
         if raw_header = [] then (Inr raw_header, lp, os, rd1)
         else
           (case unpack_giop_header g raw_header of
              Inl e \<Rightarrow> (Inl e, lp, os, rd1)
            | Inr header \<Rightarrow>
                (case read (size_h header) rd1 of
                   (Inl e, rd2) \<Rightarrow> (Inl e, lp, os, rd2)
                 | (Inr raw_data, rd2) \<Rightarrow>
                     (case inspect_frame g lp os raw_header header raw_data of
                        (res, lp', os') \<Rightarrow> (res, lp', os', rd2)))))"

section \<open>What a read consumes\<close>

lemma buffered_bounds:
  assumes "pending rd \<noteq> []"
  shows "0 < buffered rd" "buffered rd \<le> length (pending rd)"
  using assms by (auto simp: buffered_def Suc_leI split: list.splits)

lemma stream_end_cases: "ending rd \<noteq> Reset \<Longrightarrow> ending rd = Eof"
  by (cases "ending rd") auto

lemma read_data:
  assumes "pending rd \<noteq> []" "0 < n"
  shows "read n rd = (Inr (take (min n (buffered rd)) (pending rd)),
           rd\<lparr>pending := drop (min n (buffered rd)) (pending rd), avail := tl (avail rd)\<rparr>)"
  using assms by (simp add: read_def Let_def)

lemma read_pending:
  assumes "read n rd = (Inr d, rd')"
  shows "pending rd = d @ pending rd'"
proof (cases "pending rd = [] \<or> n = 0")
  case True
  with assms show ?thesis by (auto simp: read_def split: if_splits)
next
  case False
  with assms read_data[of rd n] show ?thesis by auto
qed

lemma read_error:
  assumes "read n rd = (Inl e, rd')"
  shows "rd' = rd \<and> e = ConnectionResetError \<and> pending rd = [] \<and> ending rd = Reset"
  using assms by (auto simp: read_def Let_def split: if_splits)

lemma read_nonempty:
  assumes "read n rd = (Inr d, rd')" "d \<noteq> []"
  shows "length (pending rd') < length (pending rd)"
  using read_pending[OF assms(1)] assms(2) by simp

lemma read_pending_le:
  assumes "read n rd = (res, rd')"
  shows "length (pending rd') \<le> length (pending rd)"
proof (cases res)
  case (Inl e)
  with assms read_error show ?thesis by blast
next
  case (Inr d)
  with assms read_pending show ?thesis by fastforce
qed

definition pipe_measure :: "reader \<Rightarrow> nat" where
  "pipe_measure rd = 2 * length (pending rd) + (if eof_fed rd then 0 else 1)"

lemma read_measure:
  assumes "read n rd = (Inr d, rd')" "\<not> at_eof rd" "0 < n"
  shows "pipe_measure rd' < pipe_measure rd"
proof (cases "pending rd = []")
  case True
  with assms stream_end_cases[of rd] show ?thesis
    by (auto simp: read_def at_eof_def pipe_measure_def split: if_splits)
next
  case False
  have "0 < min n (buffered rd)" using buffered_bounds(1)[OF False] assms(3) by simp
  with False assms(1) read_data[OF False assms(3)] show ?thesis
    by (auto simp: pipe_measure_def)
qed

lemma read_measure_sym:
  assumes "(Inr d, rd') = read n rd" "\<not> at_eof rd" "0 < n"
  shows "pipe_measure rd' < pipe_measure rd"
  using read_measure[OF assms(1)[symmetric] assms(2,3)] .


lemma read_frame_consumes:
  assumes "read_frame g lp os rd = (Inr d, lp', os', rd')" "d \<noteq> []"
  shows "length (pending rd') < length (pending rd)"
proof -
  obtain r1 rd1 where r1: "read 12 rd = (r1, rd1)" by (cases "read 12 rd")
  show ?thesis
  proof (cases r1)
    case (Inl e)
    with assms r1 show ?thesis by (simp add: read_frame_def)
  next
    case (Inr raw_header)
    note rh = this
    show ?thesis
    proof (cases "raw_header = []")
      case True
      with assms r1 rh show ?thesis by (simp add: read_frame_def)
    next
      case False
      from read_nonempty[OF r1[unfolded rh] False]
      have lt: "length (pending rd1) < length (pending rd)" .
      show ?thesis
      proof (cases "unpack_giop_header g raw_header")
        case (Inl e)
        with assms r1 rh False show ?thesis by (simp add: read_frame_def)
      next
        case (Inr header)
        obtain r2 rd2 where r2: "read (size_h header) rd1 = (r2, rd2)"
          by (cases "read (size_h header) rd1")
        from read_pending_le[OF r2] lt have "length (pending rd2) < length (pending rd)" by simp
        moreover have "rd' = rd2"
          using assms(1) r1 rh False Inr r2
          by (cases r2) (auto simp: read_frame_def split: prod.splits)
        ultimately show ?thesis by simp
      qed
    qed
  qed
qed

lemma read_frame_consumes_sym:
  assumes "(Inr d, lp', os', rd') = read_frame g lp os rd" "d \<noteq> []"
  shows "length (pending rd') < length (pending rd)"
  using read_frame_consumes[OF assms(1)[symmetric] assms(2)] .


section \<open>The relay loops\<close>

text \<open>
  \<^verbatim>\<open>forward_pipe\<close> (lines 13 to 17) and \<^verbatim>\<open>inspect_pipe\<close> (lines 29 to 35) run their
  \<^verbatim>\<open>while not reader.at_eof()\<close> loop inside \<^verbatim>\<open>with closing(writer)\<close>: the loop ends
  with no exception (\<open>None\<close>) or with the one its body raised, and the writer is closed
  on the way out either way. Every turn of a loop that goes on has consumed an octet or
  has seen the end of file, which is the measure of termination.
\<close>

function forward_loop :: "reader \<Rightarrow> writer \<Rightarrow> error option \<times> reader \<times> writer" where
  "forward_loop rd w =
    (if at_eof rd then (None, rd, w)
     else
       (case read 4096 rd of
          (Inl e, rd') \<Rightarrow> (Some e, rd', w)
        | (Inr data, rd') \<Rightarrow> forward_loop rd' (write_data data w)))"
  by pat_completeness auto
termination
  by (relation "measure (\<lambda>(rd, w). pipe_measure rd)") (auto intro: read_measure_sym)

function inspect_loop ::
  "giop_module \<Rightarrow> loop \<Rightarrow> os_env \<Rightarrow> reader \<Rightarrow> writer
    \<Rightarrow> error option \<times> loop \<times> os_env \<times> reader \<times> writer" where
  "inspect_loop g lp os rd w =
    (if at_eof rd then (None, lp, os, rd, w)
     else
       (case read_frame g lp os rd of
          (Inl e, lp', os', rd') \<Rightarrow> (Some e, lp', os', rd', w)
        | (Inr data, lp', os', rd') \<Rightarrow>
            if data = [] then (None, lp', os', rd', w)
            else inspect_loop g lp' os' rd' (write_data data w)))"
  by pat_completeness auto
termination
  by (relation "measure (\<lambda>(g, lp, os, rd, w). length (pending rd))")
     (auto intro: read_frame_consumes_sym)

definition forward_pipe :: "reader \<Rightarrow> writer \<Rightarrow> error option \<times> reader \<times> writer" where
  "forward_pipe rd w = (case forward_loop rd w of (res, rd', w') \<Rightarrow> (res, rd', close w'))"

definition inspect_pipe ::
  "giop_module \<Rightarrow> loop \<Rightarrow> os_env \<Rightarrow> reader \<Rightarrow> writer
    \<Rightarrow> error option \<times> loop \<times> os_env \<times> reader \<times> writer" where
  "inspect_pipe g lp os rd w =
    (case inspect_loop g lp os rd w of
       (res, lp', os', rd', w') \<Rightarrow> (res, lp', os', rd', close w'))"

section \<open>A codec after the spec\<close>

text \<open>
  The round trip of the header and every concrete run below need a codec to run on. Its
  functions are written from sections 3 and 4.1 of the spec, with the signatures of the
  calls in \<^verbatim>\<open>read_frame\<close>.
\<close>

definition magic :: bytes where
  "magic = [0x47, 0x49, 0x4F, 0x50]"

definition little_endian :: "byte \<Rightarrow> bool" where
  "little_endian f = bit f 0"

definition pack_u32 :: "bool \<Rightarrow> nat \<Rightarrow> bytes" where
  "pack_u32 le n =
    (let bs = [of_nat (n div 16777216), of_nat (n div 65536), of_nat (n div 256), of_nat n]
     in if le then rev bs else bs)"

definition pack_u16 :: "bool \<Rightarrow> nat \<Rightarrow> bytes" where
  "pack_u16 le n = (let bs = [of_nat (n div 256), of_nat n] in if le then rev bs else bs)"

definition unpack_uint :: "bool \<Rightarrow> bytes \<Rightarrow> nat" where
  "unpack_uint le bs = foldl (\<lambda>acc b. acc * 256 + unat b) 0 (if le then rev bs else bs)"

text \<open>Modelled from the spec: \<^verbatim>\<open>giop.pack_giop\<close>, missing from the sources. The 12-octet
  header (the magic, the version, the flags, the message type and the size in the byte
  order of bit 0 of the flags) followed by the payload; the size is the header's field,
  which the caller recomputes, and a size that does not fit four octets cannot be
  packed.\<close>

definition spec_pack_giop :: "giop_header \<Rightarrow> bytes \<Rightarrow> error + bytes" where
  "spec_pack_giop h body =
    (if size_h h < 4294967296
     then Inr (magic @ [major h, minor h, flags h, message_type h]
               @ pack_u32 (little_endian (flags h)) (size_h h) @ body)
     else Inl StructError)"

text \<open>Modelled from the spec: \<^verbatim>\<open>giop.unpack_giop_header\<close>, missing from the sources. It
  fails with MalformedHeader if the magic is not GIOP or if fewer than 12 octets are
  given, and reads the size in the byte order the flags indicate.\<close>

definition spec_unpack_giop_header :: "bytes \<Rightarrow> error + giop_header" where
  "spec_unpack_giop_header bs =
    (if length bs < 12 \<or> take 4 bs \<noteq> magic then Inl MalformedHeader
     else Inr \<lparr>major = bs ! 4, minor = bs ! 5, flags = bs ! 6, message_type = bs ! 7,
               size_h = unpack_uint (little_endian (bs ! 6)) (take 4 (drop 8 bs))\<rparr>)"

text \<open>Modelled from the spec: \<^verbatim>\<open>giop.unpack_reply_header\<close>, missing from the sources. The
  call site hands it the first 12 octets of the payload and no byte order, so the byte
  order is the codec's (\<open>le\<close>) and the 12 octets hold the count of an empty service
  context list, the request id and the reply status; a list that is not empty does not
  fit, which is the truncation the spec fails with MalformedReply.\<close>

definition spec_unpack_reply_header :: "bool \<Rightarrow> bytes \<Rightarrow> error + reply_header" where
  "spec_unpack_reply_header le bs =
    (if length bs < 12 \<or> unpack_uint le (take 4 bs) \<noteq> 0 then Inl MalformedReply
     else Inr \<lparr>service_context = [],
               request_id = unpack_uint le (take 4 (drop 4 bs)),
               reply_status = unpack_uint le (take 4 (drop 8 bs))\<rparr>)"

definition align :: "nat \<Rightarrow> nat \<Rightarrow> nat" where
  "align a n = ((n + a - 1) div a) * a"

text \<open>Modelled from the spec: the IIOP profile that \<^verbatim>\<open>giop.find_ior\<close> looks for, a CDR
  encapsulation: its byte-order octet, the version (major, minor), the host string
  (length-prefixed, NUL-terminated), the port (two octets) and the object key
  (length-prefixed), each integer aligned to its size from the start of the
  encapsulation. The result is the tuple and the length of the encoding.\<close>

definition unpack_profile :: "bytes \<Rightarrow> (ior \<times> nat) option" where
  "unpack_profile bs =
    (if length bs < 8 \<or> 1 < unat (bs ! 0) then None
     else
       let le = little_endian (bs ! 0);
           hl = unpack_uint le (take 4 (drop 4 bs));
           port_at = align 2 (8 + hl);
           key_at = align 4 (port_at + 2)
       in
         if hl = 0 \<or> length bs < key_at + 4 then None
         else
           let h = take hl (drop 8 bs);
               kl = unpack_uint le (take 4 (drop key_at bs));
               stop = key_at + 4 + kl
           in
             if last h \<noteq> 0 \<or> length bs < stop then None
             else Some (\<lparr>byte_order = bs ! 0, iiop_major = bs ! 1, iiop_minor = bs ! 2,
                          host = PBytes h,
                          port = PInt (int (unpack_uint le (take 2 (drop port_at bs)))),
                          object_key = take kl (drop (key_at + 4) bs)\<rparr>, stop))"

text \<open>Modelled from the spec: \<^verbatim>\<open>giop.find_ior\<close>, missing from the sources. It scans the
  body for the first well-formed IIOP profile and returns its tuple and its octet range,
  or none.\<close>

fun scan_ior :: "bytes \<Rightarrow> nat \<Rightarrow> (ior \<times> nat \<times> nat) option" where
  "scan_ior [] off = None"
| "scan_ior (b # bs) off =
    (case unpack_profile (b # bs) of
       Some (i, n) \<Rightarrow> Some (i, off, off + n)
     | None \<Rightarrow> scan_ior bs (off + 1))"

definition spec_find_ior :: "bytes \<Rightarrow> error + (ior \<times> nat \<times> nat) option" where
  "spec_find_ior body = Inr (scan_ior body 0)"

definition pad_to :: "nat \<Rightarrow> bytes \<Rightarrow> bytes" where
  "pad_to a bs = bs @ replicate (align a (length bs) - length bs) 0"

text \<open>Modelled from the spec: \<^verbatim>\<open>giop.repack_ior\<close>, missing from the sources. The profile
  is encoded anew from the tuple, with the length of its host string, and put in place
  of the octets from \<open>start\<close> to \<open>stop\<close>; the other octets are kept. A host that is not an
  octet string, or a port that is not an integer of two octets, cannot be encoded.\<close>

definition pack_profile :: "ior \<Rightarrow> error + bytes" where
  "pack_profile i =
    (case (host i, port i) of
       (PBytes h, PInt p) \<Rightarrow>
         if p < 0 \<or> 65535 < p \<or> 4294967296 \<le> length h \<or> 4294967296 \<le> length (object_key i)
         then Inl StructError
         else
           let le = little_endian (byte_order i);
               a = [byte_order i, iiop_major i, iiop_minor i, 0] @ pack_u32 le (length h) @ h;
               b = pad_to 2 a @ pack_u16 le (nat p);
               c = pad_to 4 b @ pack_u32 le (length (object_key i)) @ object_key i
           in Inr c
     | _ \<Rightarrow> Inl TypeError)"

definition spec_repack_ior :: "bytes \<Rightarrow> ior \<Rightarrow> nat \<Rightarrow> nat \<Rightarrow> error + bytes" where
  "spec_repack_ior body i start stop =
    (case pack_profile i of
       Inl e \<Rightarrow> Inl e
     | Inr p \<Rightarrow> Inr (take start body @ p @ drop stop body))"

definition giop_spec :: "bool \<Rightarrow> giop_module" where
  "giop_spec le =
    \<lparr>unpack_giop_header = spec_unpack_giop_header,
     unpack_reply_header = spec_unpack_reply_header le,
     find_ior = spec_find_ior,
     repack_ior = spec_repack_ior,
     pack_giop = spec_pack_giop\<rparr>"

subsection \<open>A codec that accepts the patched tuple\<close>

text \<open>
  The codec above refuses a tuple whose host is not an octet string. To let a Reply pass
  the whole of \<^verbatim>\<open>read_frame\<close>, a second codec differs from it in \<^verbatim>\<open>repack_ior\<close> alone: it
  takes the octet string among \<open>host\<close> and \<open>port\<close> as the host and the integer as the port.
\<close>

definition lenient_repack_ior :: "bytes \<Rightarrow> ior \<Rightarrow> nat \<Rightarrow> nat \<Rightarrow> error + bytes" where
  "lenient_repack_ior body i start stop =
    spec_repack_ior body
      (case (host i, port i) of
         (PInt p, PBytes h) \<Rightarrow> i\<lparr>host := PBytes h, port := PInt p\<rparr>
       | _ \<Rightarrow> i)
      start stop"

definition giop_lenient :: "bool \<Rightarrow> giop_module" where
  "giop_lenient le = (giop_spec le)\<lparr>repack_ior := lenient_repack_ior\<rparr>"

subsection \<open>The scenarios of the spec\<close>

definition ascii :: "string \<Rightarrow> bytes" where
  "ascii s = map of_char s"

definition text_of :: "string \<Rightarrow> pystr" where
  "text_of s = map of_char s"

text \<open>The first scenario of the spec: a Request of GIOP 1.2, flags 0, size 0.\<close>

definition demo_request :: bytes where
  "demo_request = magic @ [1, 2, 0, 0, 0, 0, 0, 0]"

text \<open>
  The database answers with a Reply, status NoException, whose body is an IIOP profile
  for host \<^verbatim>\<open>10.0.0.5\<close>, port 45678; the gateway is bound on \<^verbatim>\<open>192.168.1.10\<close>. The frame
  is little-endian: the header of 12 octets with size 40, the reply header of 12 octets
  (no service context, request 5, status 0) and the profile of 28 octets.
\<close>

definition demo_profile :: bytes where
  "demo_profile =
    [1, 1, 2, 0, 9, 0, 0, 0] @ ascii ''10.0.0.5'' @ [0, 0, 0x6E, 0xB2]
    @ [4, 0, 0, 0, 0xDE, 0xAD, 0xBE, 0xEF]"

definition demo_reply_header :: bytes where
  "demo_reply_header = [0, 0, 0, 0, 5, 0, 0, 0, 0, 0, 0, 0]"

definition demo_reply :: bytes where
  "demo_reply = magic @ [1, 0, 1, 1, 40, 0, 0, 0] @ demo_reply_header @ demo_profile"

definition demo_reader :: "bytes \<Rightarrow> reader" where
  "demo_reader bs = \<lparr>pending = bs, avail = [], ending = Eof, eof_fed = False\<rparr>"

definition demo_loop :: loop where
  "demo_loop = run_server_loop (text_of ''192.168.1.10'') 8000"

definition demo_os :: "bind_result list \<Rightarrow> os_env" where
  "demo_os rs = \<lparr>script = rs, servers = []\<rparr>"

definition demo_writer :: writer where
  "demo_writer = \<lparr>written = [], closed = False\<rparr>"

text \<open>The IOR tuple of the second scenario.\<close>

definition demo_ior :: ior where
  "demo_ior = \<lparr>byte_order = 1, iiop_major = 1, iiop_minor = 2,
                host = PBytes (ascii ''10.0.0.5'' @ [0]), port = PInt 45678,
                object_key = [0xDE, 0xAD, 0xBE, 0xEF]\<rparr>"

text \<open>The key, the listener and the registry entry of the second scenario, for a listener
  that the operating system binds on port \<open>p\<close>, and the profile rewritten for port 50000.\<close>

definition demo_key :: key where
  "demo_key = (text_of ''10.0.0.5'', PInt 45678)"

definition demo_bound :: "nat \<Rightarrow> bind_result" where
  "demo_bound p = Bound (text_of ''192.168.1.10'') p"

definition demo_server :: "nat \<Rightarrow> server" where
  "demo_server p =
    \<lparr>handler_host = text_of ''10.0.0.5'', handler_port = PInt 45678,
     listen_host = text_of ''192.168.1.10'', listen_port = 0,
     sock_host = text_of ''192.168.1.10'', sock_port = p\<rparr>"

definition demo_entry :: "nat \<Rightarrow> fwd_value" where
  "demo_entry p = (demo_server p, p, ascii ''192.168.1.10'' @ [0])"

definition demo_new_profile :: bytes where
  "demo_new_profile =
    [1, 1, 2, 0, 13, 0, 0, 0] @ ascii ''192.168.1.10'' @ [0, 0, 0x50, 0xC3]
    @ [4, 0, 0, 0, 0xDE, 0xAD, 0xBE, 0xEF]"

lemmas demo_stream_defs = demo_reader_def read_def buffered_def magic_def

lemmas demo_defs =
  demo_stream_defs demo_reply_def demo_reply_header_def demo_profile_def demo_loop_def
  demo_os_def demo_key_def demo_bound_def demo_server_def demo_entry_def demo_new_profile_def
  run_server_loop_def ascii_def text_of_def

lemmas codec_defs =
  giop_spec_def giop_lenient_def spec_unpack_giop_header_def spec_unpack_reply_header_def
  spec_find_ior_def unpack_profile_def spec_repack_ior_def lenient_repack_ior_def
  pack_profile_def spec_pack_giop_def pack_u32_def pack_u16_def unpack_uint_def
  little_endian_def align_def pad_to_def MessageType_Reply_def ReplyStatus_NoException_def

lemmas frame_defs =
  read_frame_def inspect_frame_def rewrite_ior_def ior_key_def start_port_forwarding_def
  start_server_def patch_ior_def repack_body_def cons_cp_def encode_cp_def Let_def

section \<open>Properties of the registry\<close>


text \<open>
  What the spec asks of the registry: the port of an entry is not zero and is the one
  the listener's socket reports, and the listener was asked for on the bind address of
  the loop, at port 0. The operating system, for its part, never reports port 0 for a
  socket it has bound.
\<close>

definition registry_ok :: "loop \<Rightarrow> bool" where
  "registry_ok lp =
    (\<forall>k srv p hb. forward_dict lp k = Some (srv, p, hb) \<longrightarrow>
       p \<noteq> 0 \<and> p = sock_port srv \<and> listen_host srv = bind_address lp \<and> listen_port srv = 0)"

definition os_assigns :: "os_env \<Rightarrow> bool" where
  "os_assigns os = list_all (\<lambda>r. case r of Refused \<Rightarrow> True | Bound a q \<Rightarrow> q \<noteq> 0) (script os)"

definition gateway_ok :: "pystr \<Rightarrow> loop \<Rightarrow> os_env \<Rightarrow> bool" where
  "gateway_ok b lp os = (bind_address lp = b \<and> registry_ok lp \<and> os_assigns os)"

text \<open>The registry and the listeners of \<open>lp\<close>, \<open>os\<close> extend those of \<open>lp0\<close>, \<open>os0\<close>.\<close>

definition grown :: "loop \<Rightarrow> os_env \<Rightarrow> loop \<Rightarrow> os_env \<Rightarrow> bool" where
  "grown lp0 os0 lp os =
    (dom (forward_dict lp0) \<subseteq> dom (forward_dict lp)
     \<and> (\<exists>new. servers os = servers os0 @ new))"

section \<open>The writer is closed on every way out\<close>

text \<open>
  C9. Both relay loops close their writer on every exit path: whatever the stream, the
  codec and the answers of the operating system are, and whether the loop ended at the
  end of file, at an empty frame or with an exception raised by its body, the writer
  that \<^verbatim>\<open>forward_pipe\<close> and \<^verbatim>\<open>inspect_pipe\<close> leave behind is closed.
\<close>

theorem pipes_close_writer:
  "closed (snd (snd (forward_pipe rd w)))
   \<and> closed (snd (snd (snd (snd (inspect_pipe g lp os rd w)))))"
proof
  obtain res rd' w' where "forward_loop rd w = (res, rd', w')"
    by (cases "forward_loop rd w") auto
  then have "forward_pipe rd w = (res, rd', close w')" by (simp add: forward_pipe_def)
  then show "closed (snd (snd (forward_pipe rd w)))" by (simp add: close_def)
next
  obtain res lp' os' rd' w' where "inspect_loop g lp os rd w = (res, lp', os', rd', w')"
    by (cases "inspect_loop g lp os rd w") auto
  then have "inspect_pipe g lp os rd w = (res, lp', os', rd', close w')"
    by (simp add: inspect_pipe_def)
  then show "closed (snd (snd (snd (snd (inspect_pipe g lp os rd w)))))"
    by (simp add: close_def)
qed

text \<open>A stream that breaks after two octets: the loop of \<^verbatim>\<open>forward_pipe\<close> ends with
  the exception of the read, and the writer is closed.\<close>

theorem pipes_close_writer_witness:
  "forward_pipe \<lparr>pending = [1, 2], avail = [], ending = Reset, eof_fed = False\<rparr> demo_writer
     = (Some ConnectionResetError,
        \<lparr>pending = [], avail = [], ending = Reset, eof_fed = False\<rparr>,
        \<lparr>written = [1, 2], closed = True\<rparr>)
   \<and> closed (snd (snd (snd (snd
        (inspect_pipe (giop_spec True) demo_loop (demo_os [])
           (demo_reader (take 5 demo_request)) demo_writer)))))"
proof -
  have "forward_loop \<lparr>pending = [1, 2], avail = [], ending = Reset, eof_fed = False\<rparr> demo_writer
     = (Some ConnectionResetError,
        \<lparr>pending = [], avail = [], ending = Reset, eof_fed = False\<rparr>,
        \<lparr>written = [1, 2], closed = False\<rparr>)"
    apply (subst forward_loop.simps)
    apply (simp add: at_eof_def read_def buffered_def)
    apply (simp add: write_data_def demo_writer_def)
    done
  then show ?thesis
    using pipes_close_writer[where g = "giop_spec True" and lp = demo_loop
        and os = "demo_os []" and rd = "demo_reader (take 5 demo_request)" and w = demo_writer]
    by (simp add: forward_pipe_def close_def)
qed

section \<open>Frames that are forwarded as they are\<close>



lemma read_frame_unfold:
  assumes "read 12 rd = (Inr raw_header, rd1)" "raw_header \<noteq> []"
      and "unpack_giop_header g raw_header = Inr header"
      and "read (size_h header) rd1 = (Inr raw_data, rd2)"
  shows "read_frame g lp os rd =
    (case inspect_frame g lp os raw_header header raw_data of
       (res, lp', os') \<Rightarrow> (res, lp', os', rd2))"
  using assms by (simp add: read_frame_def)



section \<open>The round trip of the header\<close>

lemma unat_byte_of_nat: "unat (of_nat n :: byte) = n mod 256"
  by (simp add: unat_of_nat)

lemma u32_digits:
  fixes n :: nat
  shows "n = 16777216 * (n div 16777216) + 65536 * (n div 65536 mod 256)
           + 256 * (n div 256 mod 256) + n mod 256"
proof -
  define a where "a = n div 256"
  define b where "b = a div 256"
  define c where "c = b div 256"
  have n: "n = 256 * a + n mod 256" unfolding a_def by simp
  have a: "a = 256 * b + a mod 256" unfolding b_def by simp
  have b: "b = 256 * c + b mod 256" unfolding c_def by simp
  have b': "b = n div 65536" unfolding b_def a_def by (simp add: div_mult2_eq[symmetric])
  have c': "c = n div 16777216" unfolding c_def b' by (simp add: div_mult2_eq[symmetric])
  have "n = 16777216 * c + 65536 * (b mod 256) + 256 * (a mod 256) + n mod 256"
    using n a b by linarith
  then show ?thesis unfolding c'[symmetric] b'[symmetric] a_def[symmetric] .
qed

lemma unpack_uint_4:
  "unpack_uint le [a, b, c, d] =
     (if le then 16777216 * unat d + 65536 * unat c + 256 * unat b + unat a
      else 16777216 * unat a + 65536 * unat b + 256 * unat c + unat d)"
  by (simp add: unpack_uint_def)

lemma unpack_pack_u32:
  assumes "n < 4294967296"
  shows "unpack_uint le (pack_u32 le n) = n"
proof -
  have top: "n div 16777216 mod 256 = n div 16777216"
    using assms by (simp add: less_mult_imp_div_less)
  show ?thesis
    using u32_digits[of n]
    by (simp add: pack_u32_def Let_def unpack_uint_4 unat_byte_of_nat top)
qed

lemma length_pack_u32: "length (pack_u32 le n) = 4"
  by (simp add: pack_u32_def Let_def)

lemma spec_pack_giop_header:
  assumes "size_h h < 4294967296"
  shows "spec_unpack_giop_header
           (magic @ [major h, minor h, flags h, message_type h]
              @ pack_u32 (little_endian (flags h)) (size_h h)) = Inr h"
  using unpack_pack_u32[OF assms, of "little_endian (flags h)"]
  by (simp add: spec_unpack_giop_header_def magic_def length_pack_u32 nth_append)

text \<open>
  C8. For every GIOP header \<open>h\<close> (its size is a 4-octet unsigned integer) and every body
  of \<open>size_h h\<close> octets: packing \<open>h\<close> with the body gives 12 octets more than the body;
  unpacking the first 12 of them gives \<open>h\<close> back; and packing the unpacked header with
  the body gives the same octets again.
\<close>

theorem giop_header_round_trip:
  assumes "size_h h < 2 ^ 32" "length body = size_h h"
  shows "\<exists>frame h'. spec_pack_giop h body = Inr frame
           \<and> length frame = 12 + length body
           \<and> spec_unpack_giop_header (take 12 frame) = Inr h'
           \<and> h' = h
           \<and> spec_pack_giop h' body = Inr frame"
proof -
  have lt: "size_h h < 4294967296" using assms(1) by simp
  let ?hd = "magic @ [major h, minor h, flags h, message_type h]
              @ pack_u32 (little_endian (flags h)) (size_h h)"
  have len: "length ?hd = 12" by (simp add: magic_def length_pack_u32)
  have pk: "spec_pack_giop h body = Inr (?hd @ body)"
    using lt by (simp add: spec_pack_giop_def)
  have tk: "take 12 (?hd @ body) = ?hd" using len by (simp add: magic_def)
  have un: "spec_unpack_giop_header (take 12 (?hd @ body)) = Inr h"
    unfolding tk using spec_pack_giop_header[OF lt] .
  show ?thesis using pk un len by auto
qed

theorem giop_header_round_trip_witness:
  "spec_pack_giop \<lparr>major = 1, minor = 2, flags = 0, message_type = 0, size_h = 0\<rparr> []
     = Inr demo_request
   \<and> spec_unpack_giop_header (take 12 demo_request)
     = Inr \<lparr>major = 1, minor = 2, flags = 0, message_type = 0, size_h = 0\<rparr>"
  using giop_header_round_trip[of "\<lparr>major = 1, minor = 2, flags = 0, message_type = 0, size_h = 0\<rparr>" "[]"]
  by (auto simp: spec_pack_giop_def demo_request_def pack_u32_def little_endian_def)

section \<open>The registry\<close>


lemma start_server_cases:
  assumes "start_server handler h p os = (r, os')"
  shows "(r = Inl OSError \<and> os' = os\<lparr>script := tl (script os)\<rparr>
            \<and> (script os = [] \<or> (\<exists>rest. script os = Refused # rest)))
       \<or> (\<exists>a q rest srv. script os = Bound a q # rest
            \<and> srv = \<lparr>handler_host = fst handler, handler_port = snd handler,
                     listen_host = h, listen_port = p, sock_host = a, sock_port = q\<rparr>
            \<and> r = Inr srv \<and> os' = os\<lparr>script := rest, servers := servers os @ [srv]\<rparr>)"
  using assms
  by (auto simp: start_server_def Let_def split: list.splits bind_result.splits)

lemma start_port_forwarding_cases:
  assumes "start_port_forwarding k lp os = (r, lp', os')"
  shows "(forward_dict lp k \<noteq> None \<and> r = None \<and> lp' = lp \<and> os' = os)
       \<or> (forward_dict lp k = None \<and> r = Some OSError \<and> lp' = lp
            \<and> os' = os\<lparr>script := tl (script os)\<rparr>
            \<and> (script os = [] \<or> (\<exists>rest. script os = Refused # rest)))
       \<or> (\<exists>a q rest srv. forward_dict lp k = None \<and> script os = Bound a q # rest
            \<and> srv = \<lparr>handler_host = fst k, handler_port = snd k,
                     listen_host = bind_address lp, listen_port = 0,
                     sock_host = a, sock_port = q\<rparr>
            \<and> os' = os\<lparr>script := rest, servers := servers os @ [srv]\<rparr>
            \<and> ((\<exists>e. encode a = Inl e \<and> r = Some e \<and> lp' = lp)
               \<or> (\<exists>hb. encode a = Inr hb \<and> r = None
                    \<and> lp' = lp\<lparr>forward_dict := (forward_dict lp)(k \<mapsto> (srv, q, hb @ [0]))\<rparr>)))"
proof (cases "forward_dict lp k = None")
  case False
  with assms show ?thesis by (auto simp: start_port_forwarding_def)
next
  case True
  obtain r1 os1 where s: "start_server (fst k, snd k) (bind_address lp) 0 os = (r1, os1)"
    by (cases "start_server (fst k, snd k) (bind_address lp) 0 os")
  show ?thesis
    using start_server_cases[OF s] assms s True
    by (cases "encode (sock_host (projr r1))")
       (auto simp: start_port_forwarding_def split: sum.splits)
qed

lemma rewrite_ior_step:
  assumes "rewrite_ior g lp os header rrh rb i start stop = (res, lp', os')"
  shows "(lp' = lp \<and> os' = os) \<or> (\<exists>k r. start_port_forwarding k lp os = (r, lp', os'))"
  using assms
  by (auto simp: rewrite_ior_def split: sum.splits prod.splits option.splits)

lemma inspect_frame_step:
  assumes "inspect_frame g lp os raw_header header raw_data = (res, lp', os')"
  shows "(lp' = lp \<and> os' = os) \<or> (\<exists>k r. start_port_forwarding k lp os = (r, lp', os'))"
  using assms rewrite_ior_step
  by (auto simp: inspect_frame_def Let_def split: sum.splits option.splits if_splits prod.splits)

lemma read_frame_step:
  assumes "read_frame g lp os rd = (res, lp', os', rd')"
  shows "(lp' = lp \<and> os' = os) \<or> (\<exists>k r. start_port_forwarding k lp os = (r, lp', os'))"
  using assms inspect_frame_step
  by (auto simp: read_frame_def split: sum.splits prod.splits if_splits)

lemma inspect_loop_preserves:
  assumes step: "\<And>k lp os r lp' os'.
      P lp os \<Longrightarrow> start_port_forwarding k lp os = (r, lp', os') \<Longrightarrow> P lp' os'"
    and "P lp os"
    and "inspect_loop g lp os rd w = (res, lp', os', rd', w')"
  shows "P lp' os'"
  using assms(2,3)
proof (induction g lp os rd w rule: inspect_loop.induct)
  case (1 g lp os rd w)
  show ?case
  proof (cases "at_eof rd")
    case True
    with "1.prems" show ?thesis by (simp add: inspect_loop.simps[of g lp os rd w])
  next
    case False
    obtain r1 lp1 os1 rd1 where rf: "read_frame g lp os rd = (r1, lp1, os1, rd1)"
      by (cases "read_frame g lp os rd") auto
    from read_frame_step[OF rf] step "1.prems"(1) have P1: "P lp1 os1" by auto
    show ?thesis
    proof (cases r1)
      case (Inl e)
      with "1.prems" False rf P1 show ?thesis
        by (simp add: inspect_loop.simps[of g lp os rd w])
    next
      case (Inr d)
      show ?thesis
      proof (cases "d = []")
        case True
        with "1.prems" False rf P1 Inr show ?thesis
          by (simp add: inspect_loop.simps[of g lp os rd w])
      next
        case ne: False
        have "inspect_loop g lp1 os1 rd1 (write_data d w) = (res, lp', os', rd', w')"
          using "1.prems"(2) False rf Inr ne by (simp add: inspect_loop.simps[of g lp os rd w])
        from "1.IH"[OF False rf[symmetric] _ _ _ ne P1 this] show ?thesis
          by (simp add: Inr)
      qed
    qed
  qed
qed

lemma inspect_pipe_preserves:
  assumes step: "\<And>k lp os r lp' os'.
      P lp os \<Longrightarrow> start_port_forwarding k lp os = (r, lp', os') \<Longrightarrow> P lp' os'"
    and "P lp os"
    and "inspect_pipe g lp os rd w = (res, lp', os', rd', w')"
  shows "P lp' os'"
proof -
  obtain w0 where "inspect_loop g lp os rd w = (res, lp', os', rd', w0)"
    using assms(3) by (auto simp: inspect_pipe_def split: prod.splits)
  from inspect_loop_preserves[of P, OF step assms(2) this] show ?thesis .
qed






lemma demo_end_of_stream:
  "read_frame g lp os (demo_reader []) = (Inr [], lp, os, (demo_reader [])\<lparr>eof_fed := True\<rparr>)"
  by (simp add: read_frame_def demo_stream_defs)



section \<open>The invariant of the registry\<close>

lemma os_assigns_tl:
  assumes "os_assigns os"
  shows "os_assigns (os\<lparr>script := tl (script os)\<rparr>)"
  using assms by (cases "script os") (simp_all add: os_assigns_def)

lemma os_assigns_bound:
  assumes "os_assigns os" "script os = Bound a q # rest"
  shows "q \<noteq> 0" "os_assigns (os\<lparr>script := rest, servers := ss\<rparr>)"
  using assms by (simp_all add: os_assigns_def)

lemma registry_ok_update:
  assumes "registry_ok lp" "q \<noteq> 0" "sock_port srv = q" "listen_host srv = bind_address lp"
      "listen_port srv = 0"
  shows "registry_ok (lp\<lparr>forward_dict := (forward_dict lp)(k \<mapsto> (srv, q, hb))\<rparr>)"
  using assms by (simp add: registry_ok_def)

lemma gateway_ok_step:
  assumes ok: "gateway_ok b lp os" and st: "start_port_forwarding k lp os = (r, lp', os')"
  shows "gateway_ok b lp' os'"
proof -
  from ok have b: "bind_address lp = b" and ro: "registry_ok lp" and oa: "os_assigns os"
    by (simp_all add: gateway_ok_def)
  from start_port_forwarding_cases[OF st]
  consider (present) "lp' = lp" "os' = os"
    | (refused) "lp' = lp" "os' = os\<lparr>script := tl (script os)\<rparr>"
    | (bound) a q rest srv where "script os = Bound a q # rest"
        "srv = \<lparr>handler_host = fst k, handler_port = snd k,
                listen_host = bind_address lp, listen_port = 0,
                sock_host = a, sock_port = q\<rparr>"
        "os' = os\<lparr>script := rest, servers := servers os @ [srv]\<rparr>"
        "lp' = lp \<or> (\<exists>hb. lp' = lp\<lparr>forward_dict := (forward_dict lp)(k \<mapsto> (srv, q, hb @ [0]))\<rparr>)"
    by blast
  then show ?thesis
  proof cases
    case present
    with ok show ?thesis by simp
  next
    case refused
    with b ro os_assigns_tl[OF oa] show ?thesis by (simp add: gateway_ok_def)
  next
    case bound
    from os_assigns_bound[OF oa bound(1)] have q: "q \<noteq> 0"
      and oa': "os_assigns os'" unfolding bound(3) by simp_all
    from bound(4) show ?thesis
    proof
      assume "lp' = lp"
      with b ro oa' show ?thesis by (simp add: gateway_ok_def)
    next
      assume "\<exists>hb. lp' = lp\<lparr>forward_dict := (forward_dict lp)(k \<mapsto> (srv, q, hb @ [0]))\<rparr>"
      then obtain hb where
        lp': "lp' = lp\<lparr>forward_dict := (forward_dict lp)(k \<mapsto> (srv, q, hb @ [0]))\<rparr>" ..
      have "registry_ok lp'" unfolding lp'
        by (rule registry_ok_update[OF ro q]) (simp_all add: bound(2))
      with b oa' lp' show ?thesis by (simp add: gateway_ok_def)
    qed
  qed
qed

lemma registry_ok_empty: "registry_ok (run_server_loop b p)"
  by (simp add: registry_ok_def run_server_loop_def)

text \<open>
  C6. Every entry of the registry has a port that is not zero, the port the listener's
  socket reports once the operating system has assigned it, and its listener was bound
  on the bind address of the gateway (port 0 requested): this holds of the empty registry
  \<^verbatim>\<open>run_server\<close> starts with, and every run of the inspecting pipe keeps it, and keeps
  the bind address, as long as the operating system reports no bound socket on port 0.
\<close>

theorem registry_ports_assigned:
  assumes "os_assigns os" "registry_ok lp"
      and "inspect_pipe g lp os rd w = (res, lp', os', rd', w')"
  shows "registry_ok lp' \<and> os_assigns os' \<and> bind_address lp' = bind_address lp
       \<and> registry_ok (run_server_loop b p)"
proof -
  have "gateway_ok (bind_address lp) lp os" using assms(1,2) by (simp add: gateway_ok_def)
  from inspect_pipe_preserves[of "gateway_ok (bind_address lp)", OF gateway_ok_step this assms(3)]
  have "gateway_ok (bind_address lp) lp' os'" .
  then show ?thesis using registry_ok_empty by (simp add: gateway_ok_def)
qed

lemma demo_reply_rewritten:
  "read_frame (giop_lenient True) demo_loop (demo_os [demo_bound 50000]) (demo_reader demo_reply)
  = (Inr (magic @ [1, 0, 1, 1, 44, 0, 0, 0] @ demo_new_profile),
     demo_loop\<lparr>forward_dict := [demo_key \<mapsto> demo_entry 50000]\<rparr>,
     \<lparr>script = [], servers = [demo_server 50000]\<rparr>, demo_reader [])"
  by (simp add: demo_defs frame_defs codec_defs)

lemma demo_first_run:
  "inspect_pipe (giop_lenient True) demo_loop (demo_os [demo_bound 50000])
      (demo_reader demo_reply) demo_writer
   = (None, demo_loop\<lparr>forward_dict := [demo_key \<mapsto> demo_entry 50000]\<rparr>,
      \<lparr>script = [], servers = [demo_server 50000]\<rparr>,
      (demo_reader [])\<lparr>eof_fed := True\<rparr>,
      \<lparr>written = magic @ [1, 0, 1, 1, 44, 0, 0, 0] @ demo_new_profile, closed = True\<rparr>)"
  apply (simp add: inspect_pipe_def)
  apply (subst inspect_loop.simps)
  apply (simp add: demo_reply_rewritten)
  apply (simp add: at_eof_def demo_reader_def demo_reply_def magic_def)
  apply (subst inspect_loop.simps)
  apply (simp add: demo_end_of_stream[unfolded demo_reader_def] at_eof_def)
  apply (simp add: write_data_def demo_writer_def close_def magic_def)
  done

theorem registry_ports_assigned_witness:
  "os_assigns (demo_os [demo_bound 50000])
   \<and> registry_ok demo_loop
   \<and> registry_ok (demo_loop\<lparr>forward_dict := [demo_key \<mapsto> demo_entry 50000]\<rparr>)
   \<and> forward_dict (demo_loop\<lparr>forward_dict := [demo_key \<mapsto> demo_entry 50000]\<rparr>) demo_key
        = Some (demo_server 50000, 50000, ascii ''192.168.1.10'' @ [0])"
proof -
  have a: "os_assigns (demo_os [demo_bound 50000])"
    by (simp add: os_assigns_def demo_os_def demo_bound_def)
  have b: "registry_ok demo_loop" unfolding demo_loop_def by (rule registry_ok_empty)
  from registry_ports_assigned[OF a b demo_first_run] a b show ?thesis
    by (simp add: demo_entry_def)
qed

section \<open>The key of the registry\<close>




section \<open>A Reply that carries an IOR\<close>

lemma inspect_frame_ior:
  assumes "message_type header = MessageType_Reply"
      and "unpack_reply_header g (take 12 raw_data) = Inr rh"
      and "reply_status rh = ReplyStatus_NoException"
      and "find_ior g (drop 12 raw_data) = Inr (Some (i, start, stop))"
  shows "inspect_frame g lp os raw_header header raw_data
     = rewrite_ior g lp os header (take 12 raw_data) (drop 12 raw_data) i start stop"
  using assms by (simp add: inspect_frame_def Let_def)

lemma read_frame_ior:
  assumes "read 12 rd = (Inr raw_header, rd1)" "raw_header \<noteq> []"
      and "unpack_giop_header g raw_header = Inr header"
      and "read (size_h header) rd1 = (Inr raw_data, rd2)"
      and "message_type header = MessageType_Reply"
      and "unpack_reply_header g (take 12 raw_data) = Inr rh"
      and "reply_status rh = ReplyStatus_NoException"
      and "find_ior g (drop 12 raw_data) = Inr (Some (i, start, stop))"
  shows "read_frame g lp os rd
     = (case rewrite_ior g lp os header (take 12 raw_data) (drop 12 raw_data) i start stop of
          (res, lp', os') \<Rightarrow> (res, lp', os', rd2))"
  using read_frame_unfold[OF assms(1-4)] inspect_frame_ior[OF assms(5-8)] by simp





lemma demo_reply_parts:
  "read 12 (demo_reader demo_reply)
     = (Inr (magic @ [1, 0, 1, 1, 40, 0, 0, 0]), demo_reader (demo_reply_header @ demo_profile))"
  "unpack_giop_header (giop_spec le) (magic @ [1, 0, 1, 1, 40, 0, 0, 0])
     = Inr \<lparr>major = 1, minor = 0, flags = 1, message_type = 1, size_h = 40\<rparr>"
  "read 40 (demo_reader (demo_reply_header @ demo_profile))
     = (Inr (demo_reply_header @ demo_profile), demo_reader [])"
  "unpack_reply_header (giop_spec True) (take 12 (demo_reply_header @ demo_profile))
     = Inr \<lparr>service_context = [], request_id = 5, reply_status = 0\<rparr>"
  "find_ior (giop_spec le) (drop 12 (demo_reply_header @ demo_profile)) = Inr (Some (demo_ior, 0, 28))"
  "ior_key demo_ior = Inr demo_key"
  by (simp_all add: demo_defs codec_defs demo_ior_def ior_key_def cons_cp_def)



section \<open>The rewritten frame\<close>

text \<open>
  C1, as the code has it. When the IOR of a Reply is found and repacked into a body
  \<open>body'\<close>, line 81 returns \<^verbatim>\<open>pack_giop(header, raw_body)\<close>: the header whose size is the
  length of the reply header followed by \<open>body'\<close>, packed with \<open>body'\<close> alone. The reply
  header is not part of the payload, which is 12 octets shorter than the size says.
\<close>

theorem rewritten_frame_lacks_reply_header:
  assumes hd: "read 12 rd = (Inr raw_header, rd1)" "raw_header \<noteq> []"
      and un: "unpack_giop_header g raw_header = Inr header"
      and da: "read (size_h header) rd1 = (Inr raw_data, rd2)"
      and reply: "message_type header = MessageType_Reply"
      and rh: "unpack_reply_header g (take 12 raw_data) = Inr rh"
      and status: "reply_status rh = ReplyStatus_NoException"
      and found: "find_ior g (drop 12 raw_data) = Inr (Some (i, start, stop))"
      and key: "ior_key i = Inr k"
      and ensured: "start_port_forwarding k lp os = (None, lp', os')"
      and entry: "forward_dict lp' k = Some v"
      and repacked: "repack_ior g (drop 12 raw_data) (patch_ior v i) start stop = Inr body'"
  shows "read_frame g lp os rd
     = (pack_giop g (header\<lparr>size_h := length (take 12 raw_data @ body')\<rparr>) body',
        lp', os', rd2)"
proof -
  have "rewrite_ior g lp os header (take 12 raw_data) (drop 12 raw_data) i start stop
      = (pack_giop g (header\<lparr>size_h := length (take 12 raw_data @ body')\<rparr>) body', lp', os')"
    using key ensured entry repacked by (simp add: rewrite_ior_def repack_body_def Let_def)
  with read_frame_ior[OF hd un da reply rh status found, of lp os] show ?thesis by simp
qed

theorem rewritten_frame_lacks_reply_header_witness:
  "read_frame (giop_lenient True) demo_loop (demo_os [demo_bound 50000]) (demo_reader demo_reply)
     = (Inr (magic @ [1, 0, 1, 1, 44, 0, 0, 0] @ demo_new_profile),
        demo_loop\<lparr>forward_dict := [demo_key \<mapsto> demo_entry 50000]\<rparr>,
        \<lparr>script = [], servers = [demo_server 50000]\<rparr>, demo_reader [])
   \<and> length (demo_reply_header @ demo_new_profile) = 44
   \<and> length demo_new_profile = 32
   \<and> spec_pack_giop \<lparr>major = 1, minor = 0, flags = 1, message_type = 1, size_h = 44\<rparr>
         (demo_reply_header @ demo_new_profile)
       = Inr (magic @ [1, 0, 1, 1, 44, 0, 0, 0] @ demo_reply_header @ demo_new_profile)"
proof -
  let ?h = "\<lparr>major = 1, minor = 0, flags = 1, message_type = 1, size_h = 40\<rparr>"
  let ?lp = "demo_loop\<lparr>forward_dict := [demo_key \<mapsto> demo_entry 50000]\<rparr>"
  let ?os = "\<lparr>script = [], servers = [demo_server 50000]\<rparr>"
  have c: "magic @ [1, 0, 1, 1, 40, 0, 0, 0] \<noteq> ([] :: bytes)" by simp
  have p2: "unpack_giop_header (giop_lenient True) (magic @ [1, 0, 1, 1, 40, 0, 0, 0]) = Inr ?h"
    using demo_reply_parts(2)[of True] by (simp add: giop_lenient_def giop_spec_def)
  have d: "message_type ?h = MessageType_Reply" by (simp add: MessageType_Reply_def)
  have p4: "unpack_reply_header (giop_lenient True) (take 12 (demo_reply_header @ demo_profile))
     = Inr \<lparr>service_context = [], request_id = 5, reply_status = 0\<rparr>"
    using demo_reply_parts(4) by (simp add: giop_lenient_def giop_spec_def)
  have e: "reply_status \<lparr>service_context = [], request_id = 5, reply_status = 0\<rparr>
      = ReplyStatus_NoException" by (simp add: ReplyStatus_NoException_def)
  have f: "read (size_h ?h) (demo_reader (demo_reply_header @ demo_profile))
     = (Inr (demo_reply_header @ demo_profile), demo_reader [])"
    using demo_reply_parts(3) by simp
  have p5: "find_ior (giop_lenient True) (drop 12 (demo_reply_header @ demo_profile))
     = Inr (Some (demo_ior, 0, 28))"
    using demo_reply_parts(5)[of True] by (simp add: giop_lenient_def giop_spec_def)
  have s: "start_port_forwarding demo_key demo_loop (demo_os [demo_bound 50000])
     = (None, ?lp, ?os)"
    by (simp add: demo_defs frame_defs)
  have en: "forward_dict ?lp demo_key = Some (demo_entry 50000)" by simp
  have rp: "repack_ior (giop_lenient True) (drop 12 (demo_reply_header @ demo_profile))
              (patch_ior (demo_entry 50000) demo_ior) 0 28 = Inr demo_new_profile"
    by (simp add: demo_defs codec_defs frame_defs demo_ior_def)
  from rewritten_frame_lacks_reply_header[OF demo_reply_parts(1) c p2 f d p4 e p5
      demo_reply_parts(6) s en rp]
  show ?thesis
    by (simp add: demo_defs codec_defs)
qed

text \<open>
  C2, as the code has it. The registry stores \<^verbatim>\<open>(server, port, host)\<close> (lines 68 to 71)
  and line 75 unpacks it as \<^verbatim>\<open>server, host, port\<close>: the IOR handed to \<^verbatim>\<open>repack_ior\<close> has
  the local port, an integer, as its host and the local host, an octet string, as its
  port.
\<close>

theorem patched_ior_has_port_as_host:
  assumes hd: "read 12 rd = (Inr raw_header, rd1)" "raw_header \<noteq> []"
      and un: "unpack_giop_header g raw_header = Inr header"
      and da: "read (size_h header) rd1 = (Inr raw_data, rd2)"
      and reply: "message_type header = MessageType_Reply"
      and rh: "unpack_reply_header g (take 12 raw_data) = Inr rh"
      and status: "reply_status rh = ReplyStatus_NoException"
      and found: "find_ior g (drop 12 raw_data) = Inr (Some (i, start, stop))"
      and key: "ior_key i = Inr k"
      and ensured: "start_port_forwarding k lp os = (None, lp', os')"
      and entry: "forward_dict lp' k = Some (srv, local_port, local_host)"
  shows "read_frame g lp os rd
     = (repack_body g header (take 12 raw_data) (drop 12 raw_data)
          (i\<lparr>host := PInt (int local_port), port := PBytes local_host\<rparr>) start stop,
        lp', os', rd2)"
proof -
  have "rewrite_ior g lp os header (take 12 raw_data) (drop 12 raw_data) i start stop
      = (repack_body g header (take 12 raw_data) (drop 12 raw_data)
          (i\<lparr>host := PInt (int local_port), port := PBytes local_host\<rparr>) start stop, lp', os')"
    using key ensured entry by (simp add: rewrite_ior_def patch_ior_def)
  with read_frame_ior[OF hd un da reply rh status found, of lp os] show ?thesis by simp
qed

theorem patched_ior_has_port_as_host_witness:
  "read_frame (giop_spec True) demo_loop (demo_os [demo_bound 50000]) (demo_reader demo_reply)
     = (Inl TypeError,
        demo_loop\<lparr>forward_dict := [demo_key \<mapsto> demo_entry 50000]\<rparr>,
        \<lparr>script = [], servers = [demo_server 50000]\<rparr>, demo_reader [])
   \<and> patch_ior (demo_entry 50000) demo_ior
     = demo_ior\<lparr>host := PInt 50000, port := PBytes (ascii ''192.168.1.10'' @ [0])\<rparr>"
proof -
  let ?h = "\<lparr>major = 1, minor = 0, flags = 1, message_type = 1, size_h = 40\<rparr>"
  let ?lp = "demo_loop\<lparr>forward_dict := [demo_key \<mapsto> demo_entry 50000]\<rparr>"
  let ?os = "\<lparr>script = [], servers = [demo_server 50000]\<rparr>"
  have c: "magic @ [1, 0, 1, 1, 40, 0, 0, 0] \<noteq> ([] :: bytes)" by simp
  have d: "message_type ?h = MessageType_Reply" by (simp add: MessageType_Reply_def)
  have e: "reply_status \<lparr>service_context = [], request_id = 5, reply_status = 0\<rparr>
      = ReplyStatus_NoException" by (simp add: ReplyStatus_NoException_def)
  have f: "read (size_h ?h) (demo_reader (demo_reply_header @ demo_profile))
     = (Inr (demo_reply_header @ demo_profile), demo_reader [])"
    using demo_reply_parts(3) by simp
  have s: "start_port_forwarding demo_key demo_loop (demo_os [demo_bound 50000])
     = (None, ?lp, ?os)"
    by (simp add: demo_defs frame_defs)
  have en: "forward_dict ?lp demo_key
     = Some (demo_server 50000, 50000, ascii ''192.168.1.10'' @ [0])"
    by (simp add: demo_entry_def)
  from patched_ior_has_port_as_host[OF demo_reply_parts(1) c demo_reply_parts(2) f d
      demo_reply_parts(4) e demo_reply_parts(5) demo_reply_parts(6) s en]
  show ?thesis
    by (simp add: demo_defs codec_defs frame_defs demo_ior_def)
qed

section \<open>What the frame reader reads\<close>









section \<open>The transparent pipe, and the growth of the registry\<close>

lemma read_ending:
  assumes "read n rd = (res, rd')"
  shows "ending rd' = ending rd"
  using assms by (auto simp: read_def Let_def split: if_splits)

lemma forward_loop_transparent:
  assumes "forward_loop rd w = (res, rd', w')"
  shows "written w' = written w @ pending rd \<and> pending rd' = [] \<and> closed w' = closed w
       \<and> res = (case ending rd of Eof \<Rightarrow> None | Reset \<Rightarrow> Some ConnectionResetError)"
  using assms
proof (induction rd w rule: forward_loop.induct)
  case (1 rd w)
  show ?case
  proof (cases "at_eof rd")
    case True
    with "1.prems" show ?thesis by (simp add: forward_loop.simps[of rd w] at_eof_def)
  next
    case False
    obtain r1 rd1 where r: "read 4096 rd = (r1, rd1)" by (cases "read 4096 rd")
    show ?thesis
    proof (cases r1)
      case (Inl e)
      from read_error[OF r[unfolded Inl]] "1.prems" False r Inl show ?thesis
        by (simp add: forward_loop.simps[of rd w])
    next
      case (Inr d)
      have "forward_loop rd1 (write_data d w) = (res, rd', w')"
        using "1.prems" False r Inr by (simp add: forward_loop.simps[of rd w])
      from "1.IH"[OF False r[symmetric] _ this] Inr
      have "written w' = written (write_data d w) @ pending rd1 \<and> pending rd' = []
          \<and> closed w' = closed (write_data d w)
          \<and> res = (case ending rd1 of Eof \<Rightarrow> None | Reset \<Rightarrow> Some ConnectionResetError)"
        by simp
      with read_pending[OF r[unfolded Inr]] read_ending[OF r] show ?thesis
        by (simp add: write_data_def)
    qed
  qed
qed

text \<open>
  The transparent pipe forwards every octet, in order: whatever the arrival pattern of
  the stream is, when \<^verbatim>\<open>forward_pipe\<close> ends its writer has received exactly the octets of
  the stream and is closed; the loop ends normally at the end of file and with the
  error of the read when the connection breaks.
\<close>

theorem forward_pipe_transparent:
  "forward_pipe rd w = (res, rd', w') \<Longrightarrow>
     written w' = written w @ pending rd \<and> pending rd' = [] \<and> closed w'
     \<and> res = (case ending rd of Eof \<Rightarrow> None | Reset \<Rightarrow> Some ConnectionResetError)"
proof -
  assume a: "forward_pipe rd w = (res, rd', w')"
  obtain w0 where l: "forward_loop rd w = (res, rd', w0)" and w': "w' = close w0"
    using a by (auto simp: forward_pipe_def split: prod.splits)
  from forward_loop_transparent[OF l] w' show ?thesis by (simp add: close_def)
qed

theorem forward_pipe_transparent_witness:
  "forward_pipe ((demo_reader demo_request)\<lparr>avail := [5, 1]\<rparr>) demo_writer
     = (None, (demo_reader [])\<lparr>eof_fed := True\<rparr>, \<lparr>written = demo_request, closed = True\<rparr>)"
proof -
  obtain res rd' w' where
    r: "forward_pipe ((demo_reader demo_request)\<lparr>avail := [5, 1]\<rparr>) demo_writer = (res, rd', w')"
    by (cases "forward_pipe ((demo_reader demo_request)\<lparr>avail := [5, 1]\<rparr>) demo_writer") auto
  have l: "forward_loop ((demo_reader demo_request)\<lparr>avail := [5, 1]\<rparr>) demo_writer
     = (None, (demo_reader [])\<lparr>eof_fed := True\<rparr>, \<lparr>written = demo_request, closed = False\<rparr>)"
    apply (subst forward_loop.simps)
    apply (simp add: at_eof_def demo_stream_defs demo_request_def write_data_def demo_writer_def)
    done
  from forward_pipe_transparent[OF r] r l show ?thesis
    by (simp add: forward_pipe_def close_def)
qed

lemma grown_step:
  assumes "grown lp0 os0 lp os" "start_port_forwarding k lp os = (r, lp', os')"
  shows "grown lp0 os0 lp' os'"
  using start_port_forwarding_cases[OF assms(2)] assms(1)
  by (elim disjE exE conjE) (auto simp: grown_def)

text \<open>
  Entries are never removed and listeners are never forgotten: after a run of the
  inspecting pipe every key of the registry is still a key, and the listeners are the
  old ones followed by the new ones.
\<close>

theorem registry_only_grows:
  assumes "inspect_pipe g lp os rd w = (res, lp', os', rd', w')"
  shows "dom (forward_dict lp) \<subseteq> dom (forward_dict lp')
       \<and> (\<exists>new. servers os' = servers os @ new)"
proof -
  have "grown lp os lp os" by (simp add: grown_def)
  from inspect_pipe_preserves[of "grown lp os", OF grown_step this assms]
  show ?thesis by (simp add: grown_def)
qed

theorem registry_only_grows_witness:
  "dom (forward_dict demo_loop)
     \<subseteq> dom (forward_dict (demo_loop\<lparr>forward_dict := [demo_key \<mapsto> demo_entry 50000]\<rparr>))
   \<and> servers \<lparr>script = [], servers = [demo_server 50000]\<rparr>
     = servers (demo_os [demo_bound 50000]) @ [demo_server 50000]"
  using registry_only_grows[OF demo_first_run]
  by (simp add: demo_os_def demo_loop_def run_server_loop_def)

end
